theory Spec2Isabelle
  imports Complex_Main "HOL-Library.Sublist"
begin

section \<open>Text, errors and paths\<close>

text \<open>
  A Python \<open>str\<close> is modelled as a \<^typ>\<open>string\<close> whose characters are read as the
  code points U+0000 to U+00FF; a \<open>bytes\<close> object is a \<^typ>\<open>string\<close> of bytes. Every
  \<open>raise\<close> of the source, and every exception of Python, h5py or numpy that the source can
  run into, is a value of \<open>error\<close>; a function that can raise returns \<open>error + 'a\<close>.
\<close>

datatype value_error =
    Unsupported_schema
  | Zero_episodes
  | Missing_required_paths string "string list"
  | Invalid_int_literal string
  | Diff_of_scalar
  | Not_a_group

datatype error =
    ValueError value_error
  | KeyError string
  | TypeError
  | IndexError
  | AttributeError
  | UnicodeDecodeError

definition ebind :: "error + 'a \<Rightarrow> ('a \<Rightarrow> error + 'b) \<Rightarrow> error + 'b" where
  "ebind m f = (case m of Inl e \<Rightarrow> Inl e | Inr x \<Rightarrow> f x)"

subsection \<open>Substring test and \<open>str.split(sep, 1)\<close>\<close>

text \<open>\<open>sep in s\<close>: some position of \<open>s\<close> starts with \<open>sep\<close>, searched from the left.\<close>

fun contains_str :: "string \<Rightarrow> string \<Rightarrow> bool" where
  "contains_str sep [] = (sep = [])"
| "contains_str sep (c # cs) = (prefix sep (c # cs) \<or> contains_str sep cs)"

text \<open>
  \<open>s.split(sep, 1)\<close> for a non-empty \<open>sep\<close>: the text before the leftmost occurrence
  and the text after it, or \<open>[s]\<close> when \<open>sep\<close> does not occur.
\<close>

fun split_once :: "string \<Rightarrow> string \<Rightarrow> string list" where
  "split_once sep [] = [[]]"
| "split_once sep (c # cs) =
     (if prefix sep (c # cs) then [[], drop (length sep) (c # cs)]
      else (case split_once sep cs of
              [] \<Rightarrow> [[c]]
            | w # ws \<Rightarrow> (c # w) # ws))"

text \<open>\<open>s.split(sep)\<close> for a one-character separator: every field, empty ones included.\<close>

fun split_char :: "char \<Rightarrow> string \<Rightarrow> string list" where
  "split_char sep [] = [[]]"
| "split_char sep (c # cs) =
     (if c = sep then [] # split_char sep cs
      else (case split_char sep cs of
              [] \<Rightarrow> [[c]]
            | w # ws \<Rightarrow> (c # w) # ws))"

subsection \<open>\<open>pathlib\<close> paths (POSIX flavour)\<close>

text \<open>
  A \<open>Path\<close> is what \<open>pathlib\<close> keeps of its argument: the root (\<open>''''\<close>, \<open>''/''\<close> or
  \<open>''//''\<close>) and the components, with empty components and \<open>.\<close> dropped. Two paths are
  equal when these are. \<open>truediv\<close> is the operator \<open>/\<close> of \<open>Path\<close> with a string on
  the right: a right operand that has a root replaces the left operand.
\<close>

record path =
  anchor :: string
  parts :: "string list"

definition splitroot :: "string \<Rightarrow> string \<times> string" where
  "splitroot s =
     (let n = length (takeWhile (\<lambda>c. c = CHR ''/'') s);
          rest = dropWhile (\<lambda>c. c = CHR ''/'') s
      in if n = 0 then ('''', s)
         else if n = 2 then (''//'', rest)
         else (''/'', rest))"

definition parse_path :: "string \<Rightarrow> path" where
  "parse_path s =
     (let (r, rel) = splitroot s
      in \<lparr>anchor = r,
          parts = filter (\<lambda>x. x \<noteq> [] \<and> x \<noteq> ''.'') (split_char (CHR ''/'') rel)\<rparr>)"

definition truediv :: "path \<Rightarrow> string \<Rightarrow> path" where
  "truediv p key =
     (let k = parse_path key
      in if anchor k \<noteq> [] then k
         else \<lparr>anchor = anchor p, parts = parts p @ parts k\<rparr>)"

section \<open>\<open>resolve_video_path\<close>\<close>

definition VIDEO_PATH_MARKER :: string where
  "VIDEO_PATH_MARKER = ''videos/''"

text \<open>
  The index \<open>[1]\<close> of the source is in range whenever the test \<open>VIDEO_PATH_MARKER in rel\<close>
  holds (lemma \<open>split_once_contains\<close> below), so it cannot raise.
\<close>

definition resolve_video_path :: "path \<Rightarrow> string \<Rightarrow> path" where
  "resolve_video_path video_root raw_video_path =
     (let rel = raw_video_path;
          rel = (if contains_str VIDEO_PATH_MARKER rel
                 then split_once VIDEO_PATH_MARKER rel ! 1
                 else rel)
      in truediv video_root rel)"

section \<open>Python values, numpy arrays and the HDF5 tree\<close>

subsection \<open>Floating-point values\<close>

text \<open>
  An array element is a finite number, an infinity or NaN. The validator only asks whether
  an element is finite and whether a difference of two neighbours is \<open>\<ge> 0\<close>; for finite
  operands the sign of the rounded IEEE difference is the sign of the exact one, so finite
  values carry their exact value. An integer array is read the same way, as finite values;
  the wrap-around of a difference of fixed-width integers is not modelled.
\<close>

datatype fval = Fin real | PInf | NInf | NaN

fun isfinite :: "fval \<Rightarrow> bool" where
  "isfinite (Fin x) = True"
| "isfinite PInf = False"
| "isfinite NInf = False"
| "isfinite NaN = False"

text \<open>\<open>fsub a b\<close> is the IEEE difference \<open>a - b\<close>.\<close>

fun fsub :: "fval \<Rightarrow> fval \<Rightarrow> fval" where
  "fsub NaN b = NaN"
| "fsub (Fin x) (Fin y) = Fin (x - y)"
| "fsub (Fin x) PInf = NInf"
| "fsub (Fin x) NInf = PInf"
| "fsub (Fin x) NaN = NaN"
| "fsub PInf PInf = NaN"
| "fsub PInf NaN = NaN"
| "fsub PInf (Fin y) = PInf"
| "fsub PInf NInf = PInf"
| "fsub NInf NInf = NaN"
| "fsub NInf NaN = NaN"
| "fsub NInf (Fin y) = NInf"
| "fsub NInf PInf = NInf"

text \<open>The comparison \<open>x >= 0\<close>: false for NaN.\<close>

fun ge0 :: "fval \<Rightarrow> bool" where
  "ge0 (Fin x) = (0 \<le> x)"
| "ge0 PInf = True"
| "ge0 NInf = False"
| "ge0 NaN = False"

subsection \<open>Objects and arrays\<close>

text \<open>
  What reading a dataset can return: \<open>bytes\<close>, \<open>str\<close>, a number, or a numpy array. An
  array is zero-dimensional (\<open>Nd0\<close>, shape \<open>()\<close>, one element) or has a first axis
  (\<open>NdN n rest elems\<close>, shape \<open>n # rest\<close>, elements in row-major order).
\<close>

datatype pyobj = Bytes string | Text string | Num fval | Arr ndarray
  and ndarray = Nd0 pyobj | NdN nat "nat list" "pyobj list"

text \<open>
  A node of the file is a group (its members in the order h5py enumerates them) or a
  dataset holding an array; a scalar dataset holds a zero-dimensional one.
\<close>

datatype h5node = Group "(string \<times> h5node) list" | Dataset ndarray

type_synonym group = "(string \<times> h5node) list"

text \<open>
  The module reads one member of the file, \<open>episodes\<close>: \<open>None\<close> when the file has no
  such member, otherwise the group of episode groups.
\<close>

record h5file =
  episodes_member :: "(string \<times> group) list option"

subsection \<open>The interpreter\<close>

text \<open>
  Functions of the Python runtime that the module calls and whose results it only passes
  on: \<open>hash\<close> of a string (fixed within one process), \<open>bytes.decode("utf-8")\<close>,
  \<open>str\<close> of an object that is not itself a \<open>str\<close>, and \<open>float\<close>.
\<close>

record runtime =
  hash_str :: "string \<Rightarrow> int"
  utf8_decode :: "string \<Rightarrow> error + string"
  str_of :: "pyobj \<Rightarrow> string"
  float_of :: "pyobj \<Rightarrow> error + fval"

definition py_str :: "runtime \<Rightarrow> pyobj \<Rightarrow> string" where
  "py_str rt x = (case x of Text s \<Rightarrow> s | _ \<Rightarrow> str_of rt x)"

subsection \<open>\<open>str.isdigit\<close> and \<open>int\<close>\<close>

text \<open>
  Among the code points up to U+00FF, \<open>str.isdigit\<close> accepts the decimal digits 0 to 9 and
  the superscripts U+00B2, U+00B3 and U+00B9. \<open>int\<close> reads decimal digits only: on a string
  that \<open>isdigit\<close> accepts (the only strings the module passes to it) it returns the
  decimal value when every character is one of 0 to 9 and raises \<open>ValueError\<close> otherwise.
  The interpreter's optional limit on the number of digits that \<open>int\<close> reads is not
  modelled.
\<close>

definition is_decimal_char :: "char \<Rightarrow> bool" where
  "is_decimal_char c = (c \<in> set ''0123456789'')"

definition is_digit_char :: "char \<Rightarrow> bool" where
  "is_digit_char c = (is_decimal_char c \<or> c \<in> set [CHR 0xB2, CHR 0xB3, CHR 0xB9])"

definition isdigit :: "string \<Rightarrow> bool" where
  "isdigit s = (s \<noteq> [] \<and> list_all is_digit_char s)"

definition isdecimal :: "string \<Rightarrow> bool" where
  "isdecimal s = (s \<noteq> [] \<and> list_all is_decimal_char s)"

definition digit_value :: "char \<Rightarrow> int" where
  "digit_value c = of_char c - 48"

definition int_of_decimal :: "string \<Rightarrow> int" where
  "int_of_decimal s = foldl (\<lambda>a c. 10 * a + digit_value c) 0 s"

definition py_int :: "string \<Rightarrow> error + int" where
  "py_int s = (if isdecimal s then Inr (int_of_decimal s)
               else Inl (ValueError (Invalid_int_literal s)))"

subsection \<open>\<open>sorted(xs, key=f)\<close>\<close>

text \<open>
  \<open>sorted\<close> first calls the key function on every element, in order, so the first
  element whose key raises decides the exception; then it sorts stably by the keys.
\<close>

fun emap :: "('a \<Rightarrow> error + 'b) \<Rightarrow> 'a list \<Rightarrow> error + 'b list" where
  "emap f [] = Inr []"
| "emap f (x # xs) = ebind (f x) (\<lambda>y. ebind (emap f xs) (\<lambda>ys. Inr (y # ys)))"

definition py_sorted :: "('a \<Rightarrow> error + int) \<Rightarrow> 'a list \<Rightarrow> error + 'a list" where
  "py_sorted f xs = ebind (emap f xs) (\<lambda>ks. Inr (map snd (sort_key fst (zip ks xs))))"

subsection \<open>h5py access\<close>

text \<open>\<open>node[name]\<close>.\<close>

fun getitem :: "h5node \<Rightarrow> string \<Rightarrow> error + h5node" where
  "getitem (Group ms) name =
     (case map_of ms name of None \<Rightarrow> Inl (KeyError name) | Some n \<Rightarrow> Inr n)"
| "getitem (Dataset a) name = Inl (ValueError Not_a_group)"

text \<open>\<open>node[k1][k2]...\<close>.\<close>

fun getpath :: "h5node \<Rightarrow> string list \<Rightarrow> error + h5node" where
  "getpath n [] = Inr n"
| "getpath n (k # ks) = ebind (getitem n k) (\<lambda>m. getpath m ks)"

text \<open>\<open>node[...]\<close>: the whole dataset as an array.\<close>

fun read_all :: "h5node \<Rightarrow> error + ndarray" where
  "read_all (Dataset a) = Inr a"
| "read_all (Group ms) = Inl TypeError"

text \<open>\<open>node[()]\<close>: the element of a scalar dataset, the array of any other.\<close>

fun read_scalar :: "h5node \<Rightarrow> error + pyobj" where
  "read_scalar (Dataset (Nd0 x)) = Inr x"
| "read_scalar (Dataset (NdN n rest es)) = Inr (Arr (NdN n rest es))"
| "read_scalar (Group ms) = Inl TypeError"

text \<open>\<open>node.shape[0]\<close>.\<close>

fun shape0 :: "h5node \<Rightarrow> error + nat" where
  "shape0 (Dataset (Nd0 x)) = Inl IndexError"
| "shape0 (Dataset (NdN n rest es)) = Inr n"
| "shape0 (Group ms) = Inl AttributeError"

text \<open>
  \<open>path in group\<close>: h5py follows the components of the path; a missing link, or a
  component below something that is not a group, gives \<open>False\<close>.
\<close>

fun walk :: "h5node \<Rightarrow> string list \<Rightarrow> bool" where
  "walk n [] = True"
| "walk (Group ms) (c # cs) =
     (case map_of ms c of None \<Rightarrow> False | Some n \<Rightarrow> walk n cs)"
| "walk (Dataset a) (c # cs) = False"

definition path_in :: "group \<Rightarrow> string \<Rightarrow> bool" where
  "path_in g p = walk (Group g) (split_char (CHR ''/'') p)"

subsection \<open>numpy\<close>

fun elems :: "ndarray \<Rightarrow> pyobj list" where
  "elems (Nd0 x) = [x]"
| "elems (NdN n rest es) = es"

fun ndim :: "ndarray \<Rightarrow> nat" where
  "ndim (Nd0 x) = 0"
| "ndim (NdN n rest es) = Suc (length rest)"

text \<open>\<open>len(a)\<close>: the first axis; \<open>TypeError\<close> for a zero-dimensional array.\<close>

fun np_len :: "ndarray \<Rightarrow> error + nat" where
  "np_len (Nd0 x) = Inl TypeError"
| "np_len (NdN n rest es) = Inr n"

text \<open>The elements as numbers; \<open>None\<close> when the array is not numeric.\<close>

fun nums_of :: "pyobj list \<Rightarrow> fval list option" where
  "nums_of [] = Some []"
| "nums_of (Num x # es) = (case nums_of es of None \<Rightarrow> None | Some xs \<Rightarrow> Some (x # xs))"
| "nums_of (e # es) = None"

text \<open>\<open>np.isfinite(a).all()\<close>; numpy raises \<open>TypeError\<close> on an array that is not numeric.\<close>

definition np_isfinite_all :: "ndarray \<Rightarrow> error + bool" where
  "np_isfinite_all a =
     (case nums_of (elems a) of
        None \<Rightarrow> Inl TypeError
      | Some xs \<Rightarrow> Inr (list_all isfinite xs))"

text \<open>\<open>np.diff\<close> of one row: each element minus its predecessor.\<close>

fun diff :: "fval list \<Rightarrow> fval list" where
  "diff (a # b # xs) = fsub b a # diff (b # xs)"
| "diff xs = []"

function rows :: "nat \<Rightarrow> 'a list \<Rightarrow> 'a list list" where
  "rows w xs = (if w = 0 \<or> xs = [] then [] else take w xs # rows w (drop w xs))"
  by pat_completeness auto
termination
  by (relation "measure (\<lambda>(w, xs). length xs)") auto

text \<open>
  \<open>np.diff\<close> works along the last axis: a one-dimensional array is one row, an array of
  more dimensions is cut into rows of the length of its last axis.
\<close>

definition last_axis_rows :: "nat list \<Rightarrow> 'a list \<Rightarrow> 'a list list" where
  "last_axis_rows rest xs = (if rest = [] then [xs] else rows (last rest) xs)"

text \<open>
  \<open>np.all(np.diff(a) >= 0)\<close>; \<open>np.diff\<close> raises \<open>ValueError\<close> on a zero-dimensional
  array and \<open>TypeError\<close> on one that is not numeric.
\<close>

fun np_all_diff_ge0 :: "ndarray \<Rightarrow> error + bool" where
  "np_all_diff_ge0 (Nd0 x) = Inl (ValueError Diff_of_scalar)"
| "np_all_diff_ge0 (NdN n rest es) =
     (case nums_of es of
        None \<Rightarrow> Inl TypeError
      | Some xs \<Rightarrow> Inr (list_all (\<lambda>row. list_all ge0 (diff row)) (last_axis_rows rest xs)))"

text \<open>\<open>a.ndim != 2 or a.shape[1] != 6\<close>.\<close>

fun not_Tx6 :: "ndarray \<Rightarrow> bool" where
  "not_Tx6 (NdN n [w] es) = (w \<noteq> 6)"
| "not_Tx6 a = True"

section \<open>The module \<open>hdf5_adapter\<close>\<close>

record EpisodeView =
  episode_key :: string
  demo_id :: int
  num_steps :: int
  task_text :: string
  video_path_hdf5 :: string
  video_path_resolved :: path
  from_timestamp :: fval
  to_timestamp :: fval
  fps :: fval

fun decode_scalar_string :: "runtime \<Rightarrow> pyobj \<Rightarrow> error + string" where
  "decode_scalar_string rt (Bytes b) = utf8_decode rt b"
| "decode_scalar_string rt (Arr (Nd0 x)) = decode_scalar_string rt x"
| "decode_scalar_string rt raw = Inr (py_str rt raw)"

definition get_episode_group :: "h5file \<Rightarrow> error + (string \<times> group) list" where
  "get_episode_group dataset =
     (case episodes_member dataset of
        Some episodes \<Rightarrow> Inr episodes
      | None \<Rightarrow> Inl (ValueError Unsupported_schema))"

definition required_episode_paths :: "string list" where
  "required_episode_paths =
     [''action/delta_eef'',
      ''obs/proprio'',
      ''obs/eef_pose'',
      ''meta/frame_index'',
      ''meta/timestamps'',
      ''meta/task_text'',
      ''meta/video/path'',
      ''meta/video/from_timestamp'',
      ''meta/video/to_timestamp'',
      ''meta/video/fps'']"

text \<open>\<open>_sort_key\<close> of the source (an Isabelle name cannot start with an underscore).\<close>

definition py_sort_key :: "runtime \<Rightarrow> string \<Rightarrow> error + int" where
  "py_sort_key rt key =
     (if isdigit key then py_int key
      else Inr (abs (hash_str rt key)))"

text \<open>\<open>episodes[key]\<close>.\<close>

definition episode_of :: "(string \<times> group) list \<Rightarrow> string \<Rightarrow> error + group" where
  "episode_of episodes key =
     (case map_of episodes key of None \<Rightarrow> Inl (KeyError key) | Some g \<Rightarrow> Inr g)"

definition assert_required_structure :: "runtime \<Rightarrow> h5file \<Rightarrow> error + unit" where
  "assert_required_structure rt dataset =
     ebind (get_episode_group dataset) (\<lambda>episodes.
       if length (map fst episodes) = 0 then Inl (ValueError Zero_episodes)
       else
         ebind (py_sorted (py_sort_key rt) (map fst episodes)) (\<lambda>sorted_keys.
           case sorted_keys of
             [] \<Rightarrow> Inl IndexError
           | first_key # others \<Rightarrow>
               ebind (episode_of episodes first_key) (\<lambda>first_episode.
                 let missing = filter (\<lambda>p. \<not> path_in first_episode p) required_episode_paths
                 in if missing \<noteq> []
                    then Inl (ValueError (Missing_required_paths first_key missing))
                    else Inr ())))"

text \<open>The body of the loop of \<open>iter_episode_views\<close>, for one key of the sorted list.\<close>

definition episode_view ::
  "runtime \<Rightarrow> path \<Rightarrow> (string \<times> group) list \<Rightarrow> string \<Rightarrow> error + EpisodeView" where
  "episode_view rt video_root episodes key =
     ebind (episode_of episodes key) (\<lambda>g.
     let episode = Group g in
     ebind (getpath episode [''action'', ''delta_eef'']) (\<lambda>action.
     ebind (ebind (ebind (getpath episode [''meta'', ''task_text'']) read_scalar)
              (decode_scalar_string rt)) (\<lambda>task_text.
     ebind (ebind (ebind (getpath episode [''meta'', ''video'', ''path'']) read_scalar)
              (decode_scalar_string rt)) (\<lambda>raw_video.
     ebind (ebind (ebind (getpath episode [''meta'', ''video'', ''from_timestamp'']) read_scalar)
              (float_of rt)) (\<lambda>from_ts.
     ebind (ebind (ebind (getpath episode [''meta'', ''video'', ''to_timestamp'']) read_scalar)
              (float_of rt)) (\<lambda>to_ts.
     ebind (ebind (ebind (getpath episode [''meta'', ''video'', ''fps'']) read_scalar)
              (float_of rt)) (\<lambda>fps_value.
     ebind (if isdigit key then py_int key else py_sort_key rt key) (\<lambda>demo.
     ebind (shape0 action) (\<lambda>steps.
       Inr \<lparr>episode_key = key,
            demo_id = demo,
            num_steps = int steps,
            task_text = task_text,
            video_path_hdf5 = raw_video,
            video_path_resolved = resolve_video_path video_root raw_video,
            from_timestamp = from_ts,
            to_timestamp = to_ts,
            fps = fps_value\<rparr>)))))))))"

text \<open>
  The generator: the views it yields, in order, and the exception that ended it, if one
  did. It stops at the first key whose view cannot be built.
\<close>

fun yield_views ::
  "runtime \<Rightarrow> path \<Rightarrow> (string \<times> group) list \<Rightarrow> string list
     \<Rightarrow> EpisodeView list \<times> error option" where
  "yield_views rt video_root episodes [] = ([], None)"
| "yield_views rt video_root episodes (key # keys) =
     (case episode_view rt video_root episodes key of
        Inl e \<Rightarrow> ([], Some e)
      | Inr v \<Rightarrow>
          (case yield_views rt video_root episodes keys of
             (vs, r) \<Rightarrow> (v # vs, r)))"

definition iter_episode_views ::
  "runtime \<Rightarrow> h5file \<Rightarrow> path \<Rightarrow> EpisodeView list \<times> error option" where
  "iter_episode_views rt dataset video_root =
     (case get_episode_group dataset of
        Inl e \<Rightarrow> ([], Some e)
      | Inr episodes \<Rightarrow>
          (case py_sorted (py_sort_key rt) (map fst episodes) of
             Inl e \<Rightarrow> ([], Some e)
           | Inr sorted_keys \<Rightarrow> yield_views rt video_root episodes sorted_keys))"

text \<open>
  The chained comparison \<open>len(proprio) == len(eef_pose) == len(frame_index) ==
  len(timestamps) == length\<close> is evaluated from the left and stops at the first pair that
  differs, so a later \<open>len\<close> is not called then.
\<close>

definition lengths_agree ::
  "ndarray \<Rightarrow> ndarray \<Rightarrow> ndarray \<Rightarrow> ndarray \<Rightarrow> nat \<Rightarrow> error + bool" where
  "lengths_agree proprio eef_pose frame_index timestamps len =
     ebind (np_len proprio) (\<lambda>lp.
     ebind (np_len eef_pose) (\<lambda>le.
       if lp \<noteq> le then Inr False
       else ebind (np_len frame_index) (\<lambda>lf.
         if le \<noteq> lf then Inr False
         else ebind (np_len timestamps) (\<lambda>lt.
           if lf \<noteq> lt then Inr False
           else Inr (lt = len)))))"

definition tag_if :: "bool \<Rightarrow> string \<Rightarrow> string list" where
  "tag_if b t = (if b then [t] else [])"

text \<open>\<open>episode[k1][k2][...]\<close>.\<close>

definition read_array :: "h5node \<Rightarrow> string list \<Rightarrow> error + ndarray" where
  "read_array n ks = ebind (getpath n ks) read_all"

definition validate_episode_arrays :: "group \<Rightarrow> error + string list" where
  "validate_episode_arrays g =
     (let episode = Group g in
      ebind (read_array episode [''action'', ''delta_eef'']) (\<lambda>delta_eef.
      ebind (read_array episode [''obs'', ''proprio'']) (\<lambda>proprio.
      ebind (read_array episode [''obs'', ''eef_pose'']) (\<lambda>eef_pose.
      ebind (read_array episode [''meta'', ''frame_index'']) (\<lambda>frame_index.
      ebind (read_array episode [''meta'', ''timestamps'']) (\<lambda>timestamps.
      ebind (np_len delta_eef) (\<lambda>len.
      ebind (lengths_agree proprio eef_pose frame_index timestamps len) (\<lambda>agree.
      ebind (np_isfinite_all delta_eef) (\<lambda>delta_finite.
      ebind (np_isfinite_all proprio) (\<lambda>proprio_finite.
      ebind (np_isfinite_all eef_pose) (\<lambda>eef_finite.
      ebind (np_all_diff_ge0 frame_index) (\<lambda>frames_ok.
      ebind (np_all_diff_ge0 timestamps) (\<lambda>times_ok.
        Inr (tag_if (\<not> agree) ''length_mismatch''
           @ tag_if (\<not> delta_finite) ''delta_eef_non_finite''
           @ tag_if (\<not> proprio_finite) ''proprio_non_finite''
           @ tag_if (\<not> eef_finite) ''eef_pose_non_finite''
           @ tag_if (\<not> frames_ok) ''frame_index_not_monotonic''
           @ tag_if (\<not> times_ok) ''timestamps_not_monotonic''
           @ tag_if (not_Tx6 delta_eef) ''delta_eef_shape_not_Tx6''))))))))))))))"

text \<open>
  The name the exporters give the file of a demo: \<open>f"demo_{demo_id:04d}_front.mp4"\<close>, the
  decimal digits of a non-negative \<open>demo_id\<close> padded with zeros to four places.
\<close>

fun decimal_digits :: "nat \<Rightarrow> string" where
  "decimal_digits n =
     (if n < 10 then [char_of (48 + n)]
      else decimal_digits (n div 10) @ [char_of (48 + n mod 10)])"

definition format_04d :: "int \<Rightarrow> string" where
  "format_04d n =
     (if n < 0
      then CHR ''-'' # replicate (3 - length (decimal_digits (nat (- n)))) (CHR ''0'')
             @ decimal_digits (nat (- n))
      else replicate (4 - length (decimal_digits (nat n))) (CHR ''0'') @ decimal_digits (nat n))"

definition expected_export_name :: "EpisodeView \<Rightarrow> string" where
  "expected_export_name v = ''demo_'' @ format_04d (demo_id v) @ ''_front.mp4''"

section \<open>The ordering rule of the specification\<close>

text \<open>
  The rule that the specification gives for the order of the episodes and for \<open>demo_id\<close>:
  a key of decimal digits counts as its integer value, every other key as the absolute
  value of its hash.
\<close>

definition sort_rule :: "runtime \<Rightarrow> string \<Rightarrow> int" where
  "sort_rule rt key =
     (if isdecimal key then int_of_decimal key else abs (hash_str rt key))"

section \<open>Notions of the specification of the array validator\<close>








section \<open>Example inputs\<close>

text \<open>
  A runtime to evaluate the functions on examples. Its hash is one possible hash function
  (negative values included); its decoder is UTF-8 on the byte strings that encode code
  points up to U+00FF, the text a \<^typ>\<open>string\<close> holds here; its \<open>str\<close> gives numpy's
  text of a one-dimensional array of byte strings, such as \<open>[b'o' b'k']\<close>; its \<open>float\<close>
  converts numbers.
\<close>

fun utf8_latin1 :: "string \<Rightarrow> error + string" where
  "utf8_latin1 [] = Inr []"
| "utf8_latin1 (c # cs) =
     (if (of_char c :: nat) < 0x80
      then ebind (utf8_latin1 cs) (\<lambda>r. Inr (c # r))
      else
        (case cs of
           [] \<Rightarrow> Inl UnicodeDecodeError
         | d # ds \<Rightarrow>
             if (of_char c :: nat) \<in> {0xC2, 0xC3}
                \<and> 0x80 \<le> (of_char d :: nat) \<and> (of_char d :: nat) \<le> 0xBF
             then ebind (utf8_latin1 ds)
                    (\<lambda>r. Inr (char_of (((of_char c :: nat) - 0xC0) * 0x40
                                          + ((of_char d :: nat) - 0x80)) # r))
             else Inl UnicodeDecodeError))"

fun join_with_space :: "string list \<Rightarrow> string" where
  "join_with_space [] = []"
| "join_with_space [s] = s"
| "join_with_space (s # t # ss) = s @ '' '' @ join_with_space (t # ss)"

fun element_repr :: "pyobj \<Rightarrow> string" where
  "element_repr (Bytes b) = ''b'' @ [CHR 0x27] @ b @ [CHR 0x27]"
| "element_repr x = ''...''"

fun array_str :: "pyobj \<Rightarrow> string" where
  "array_str (Arr (NdN n [] es)) = ''['' @ join_with_space (map element_repr es) @ '']''"
| "array_str x = ''...''"

fun number_float :: "pyobj \<Rightarrow> error + fval" where
  "number_float (Num x) = Inr x"
| "number_float x = Inl TypeError"

definition example_runtime :: runtime where
  "example_runtime =
     \<lparr>hash_str = (\<lambda>s. - int (length s) - 2),
      utf8_decode = utf8_latin1,
      str_of = array_str,
      float_of = number_float\<rparr>"

definition vector :: "fval list \<Rightarrow> ndarray" where
  "vector xs = NdN (length xs) [] (map Num xs)"

definition matrix :: "nat \<Rightarrow> fval list \<Rightarrow> ndarray" where
  "matrix w xs = NdN (length xs div w) [w] (map Num xs)"

definition scalar_number :: "real \<Rightarrow> h5node" where
  "scalar_number x = Dataset (Nd0 (Num (Fin x)))"

text \<open>An episode group with all ten required paths, from its five arrays.\<close>

definition make_episode ::
  "ndarray \<Rightarrow> ndarray \<Rightarrow> ndarray \<Rightarrow> ndarray \<Rightarrow> ndarray \<Rightarrow> group" where
  "make_episode delta_eef proprio eef_pose frame_index timestamps =
     [(''action'', Group [(''delta_eef'', Dataset delta_eef)]),
      (''meta'', Group
         [(''frame_index'', Dataset frame_index),
          (''task_text'', Dataset (Nd0 (Bytes ''pick up the cube''))),
          (''timestamps'', Dataset timestamps),
          (''video'', Group
             [(''fps'', scalar_number 30),
              (''from_timestamp'', scalar_number 0),
              (''path'', Dataset (Nd0 (Bytes ''lerobot/videos/front/episode_000.mp4''))),
              (''to_timestamp'', scalar_number 2)])]),
      (''obs'', Group
         [(''eef_pose'', Dataset eef_pose),
          (''proprio'', Dataset proprio)])]"

definition good_episode :: group where
  "good_episode =
     make_episode
       (matrix 6 (map Fin [0, 0, 0, 0, 0, 0, 1, 1, 1, 1, 1, 1]))
       (matrix 2 (map Fin [0, 1, 2, 3]))
       (matrix 2 (map Fin [5, 5, 6, 6]))
       (vector (map Fin [0, 1]))
       (vector (map Fin [0, 1 / 30]))"

definition nan_pose_episode :: group where
  "nan_pose_episode =
     make_episode
       (matrix 6 (map Fin [0, 0, 0, 0, 0, 0, 1, 1, 1, 1, 1, 1]))
       (matrix 2 (map Fin [0, 1, 2, 3]))
       (matrix 2 [Fin 5, NaN, Fin 6, Fin 6])
       (vector (map Fin [0, 1]))
       (vector (map Fin [0, 1 / 30]))"

definition two_demo_file :: h5file where
  "two_demo_file = \<lparr>episodes_member = Some [(''0'', good_episode), (''1'', nan_pose_episode)]\<rparr>"

definition example_root :: path where
  "example_root = parse_path ''data/videos/incoming''"

text \<open>
  A file whose keys h5py enumerates by name: \<open>10\<close>, \<open>2\<close>, \<open>front\<close>. The example
  runtime hashes \<open>front\<close> to \<open>-7\<close>.
\<close>

definition three_demo_file :: h5file where
  "three_demo_file =
     \<lparr>episodes_member =
        Some [(''10'', good_episode), (''2'', good_episode), (''front'', nan_pose_episode)]\<rparr>"

text \<open>A file with two keys of the same integer value; h5py enumerates \<open>007\<close> first.\<close>

definition collision_file :: h5file where
  "collision_file =
     \<lparr>episodes_member = Some [(''007'', good_episode), (''7'', good_episode)]\<rparr>"




text \<open>
  A file whose only episode has all ten required paths and is named by the superscript
  digit U+00B2.
\<close>

definition superscript_key_file :: h5file where
  "superscript_key_file = \<lparr>episodes_member = Some [([CHR 0xB2], good_episode)]\<rparr>"

text \<open>A one-dimensional array of two one-byte strings, and its text in numpy.\<close>

definition char_array :: pyobj where
  "char_array = Arr (NdN 2 [] [Bytes ''o'', Bytes ''k''])"

definition char_array_text :: string where
  "char_array_text =
     ''[b'' @ [CHR 0x27] @ ''o'' @ [CHR 0x27] @ '' b'' @ [CHR 0x27] @ ''k'' @ [CHR 0x27] @ '']''"

section \<open>Properties of the path resolution\<close>

lemma contains_str_iff:
  "contains_str sep s \<longleftrightarrow> (\<exists>pre suf. s = pre @ sep @ suf)"
proof (induction s)
  case Nil
  show ?case by auto
next
  case (Cons c cs)
  show ?case
  proof
    assume "contains_str sep (c # cs)"
    then consider "prefix sep (c # cs)" | "contains_str sep cs" by auto
    then show "\<exists>pre suf. c # cs = pre @ sep @ suf"
    proof cases
      case 1
      then obtain suf where "c # cs = sep @ suf" by (auto simp: prefix_def)
      then have "c # cs = [] @ sep @ suf" by simp
      then show ?thesis by blast
    next
      case 2
      with Cons.IH obtain pre suf where "cs = pre @ sep @ suf" by blast
      then have "c # cs = (c # pre) @ sep @ suf" by simp
      then show ?thesis by blast
    qed
  next
    assume "\<exists>pre suf. c # cs = pre @ sep @ suf"
    then obtain pre suf where eq: "c # cs = pre @ sep @ suf" by blast
    show "contains_str sep (c # cs)"
    proof (cases pre)
      case Nil
      with eq have "prefix sep (c # cs)" by (simp add: prefix_def)
      then show ?thesis by simp
    next
      case (Cons d pre')
      with eq have "cs = pre' @ sep @ suf" by simp
      with Cons.IH have "contains_str sep cs" by blast
      then show ?thesis by simp
    qed
  qed
qed

lemma split_once_first:
  assumes "sep \<noteq> []"
    and "s = pre @ sep @ suf"
    and "\<forall>p t. s = p @ sep @ t \<longrightarrow> length pre \<le> length p"
  shows "split_once sep s = [pre, suf]"
  using assms
proof (induction pre arbitrary: s)
  case Nil
  from Nil.prems have "s \<noteq> []" by simp
  then obtain c cs where s: "s = c # cs" by (cases s) simp_all
  from Nil.prems have pf: "prefix sep s" by (simp add: prefix_def)
  from Nil.prems have "drop (length sep) s = suf" by simp
  with s pf show ?case by simp
next
  case (Cons d pre')
  let ?cs = "pre' @ sep @ suf"
  from Cons.prems have s: "s = d # ?cs" by simp
  have notp: "\<not> prefix sep s"
  proof
    assume "prefix sep s"
    then obtain t where "s = [] @ sep @ t" by (auto simp: prefix_def)
    with Cons.prems(3) have "length (d # pre') \<le> length ([]::string)" by blast
    then show False by simp
  qed
  have min: "\<forall>p t. ?cs = p @ sep @ t \<longrightarrow> length pre' \<le> length p"
  proof (intro allI impI)
    fix p t assume "?cs = p @ sep @ t"
    then have "s = (d # p) @ sep @ t" using s by simp
    with Cons.prems(3) have "length (d # pre') \<le> length (d # p)" by blast
    then show "length pre' \<le> length p" by simp
  qed
  from Cons.IH[OF Cons.prems(1) refl min] have "split_once sep ?cs = [pre', suf]" .
  with notp s show ?case by simp
qed

lemma split_once_contains:
  "sep \<noteq> [] \<Longrightarrow> contains_str sep s \<Longrightarrow>
     \<exists>pre suf. split_once sep s = [pre, suf] \<and> s = pre @ sep @ suf
       \<and> (\<forall>p t. s = p @ sep @ t \<longrightarrow> length pre \<le> length p)"
proof (induction s)
  case Nil
  then show ?case by simp
next
  case (Cons c cs)
  show ?case
  proof (cases "prefix sep (c # cs)")
    case True
    then obtain suf where suf: "c # cs = sep @ suf" by (auto simp: prefix_def)
    then have "drop (length sep) (c # cs) = suf" by simp
    with True have sp: "split_once sep (c # cs) = [[], suf]" by simp
    have eq: "c # cs = [] @ sep @ suf" using suf by simp
    have "\<forall>p t. c # cs = p @ sep @ t \<longrightarrow> length ([]::string) \<le> length p" by simp
    with sp eq show ?thesis by blast
  next
    case False
    with Cons.prems have "contains_str sep cs" by simp
    from Cons.IH[OF Cons.prems(1) this] obtain pre suf where
      sp: "split_once sep cs = [pre, suf]" and cs: "cs = pre @ sep @ suf"
      and min: "\<forall>p t. cs = p @ sep @ t \<longrightarrow> length pre \<le> length p" by blast
    have "\<forall>p t. c # cs = p @ sep @ t \<longrightarrow> length (c # pre) \<le> length p"
    proof (intro allI impI)
      fix p t assume eq: "c # cs = p @ sep @ t"
      show "length (c # pre) \<le> length p"
      proof (cases p)
        case Nil
        with eq have "prefix sep (c # cs)" by (simp add: prefix_def)
        with False show ?thesis by simp
      next
        case (Cons d p')
        with eq have "cs = p' @ sep @ t" by simp
        with min have "length pre \<le> length p'" by blast
        with Cons show ?thesis by simp
      qed
    qed
    moreover have "split_once sep (c # cs) = [c # pre, suf]" using False sp by simp
    moreover have "c # cs = (c # pre) @ sep @ suf" using cs by simp
    ultimately show ?thesis by blast
  qed
qed

text \<open>
  Claim C3. When the raw path contains \<open>videos/\<close>, the result is the video root joined
  (by the \<open>/\<close> of \<open>Path\<close>) with exactly the text after the first, that is leftmost,
  occurrence of the marker, however often the marker occurs; when the raw path does not
  contain the marker, the result is the video root joined with the whole raw path.
\<close>

theorem resolve_video_path_marker:
  "(raw = pre @ VIDEO_PATH_MARKER @ suf
      \<and> (\<forall>p t. raw = p @ VIDEO_PATH_MARKER @ t \<longrightarrow> length pre \<le> length p)
      \<longrightarrow> resolve_video_path video_root raw = truediv video_root suf)
   \<and> ((\<nexists>p t. raw = p @ VIDEO_PATH_MARKER @ t)
      \<longrightarrow> resolve_video_path video_root raw = truediv video_root raw)"
proof (intro conjI impI)
  assume a: "raw = pre @ VIDEO_PATH_MARKER @ suf
      \<and> (\<forall>p t. raw = p @ VIDEO_PATH_MARKER @ t \<longrightarrow> length pre \<le> length p)"
  have ne: "VIDEO_PATH_MARKER \<noteq> []" by (simp add: VIDEO_PATH_MARKER_def)
  from a have "contains_str VIDEO_PATH_MARKER raw"
    unfolding contains_str_iff by blast
  moreover from a have "split_once VIDEO_PATH_MARKER raw = [pre, suf]"
    using split_once_first[OF ne] by blast
  ultimately show "resolve_video_path video_root raw = truediv video_root suf"
    by (simp add: resolve_video_path_def)
next
  assume "\<nexists>p t. raw = p @ VIDEO_PATH_MARKER @ t"
  then have "\<not> contains_str VIDEO_PATH_MARKER raw"
    unfolding contains_str_iff by blast
  then show "resolve_video_path video_root raw = truediv video_root raw"
    by (simp add: resolve_video_path_def)
qed

theorem resolve_video_path_marker_witness:
  "resolve_video_path (parse_path ''data/videos/incoming'') ''lerobot/videos/front/videos/ep0.mp4''
     = truediv (parse_path ''data/videos/incoming'') ''front/videos/ep0.mp4''
   \<and> resolve_video_path (parse_path ''data/videos/incoming'') ''front/ep1.mp4''
     = truediv (parse_path ''data/videos/incoming'') ''front/ep1.mp4''
   \<and> truediv (parse_path ''data/videos/incoming'') ''front/videos/ep0.mp4''
     = \<lparr>anchor = '''', parts = [''data'', ''videos'', ''incoming'', ''front'', ''videos'', ''ep0.mp4'']\<rparr>"
proof -
  let ?raw = "''lerobot/videos/front/videos/ep0.mp4''"
  have ne: "VIDEO_PATH_MARKER \<noteq> []" by (simp add: VIDEO_PATH_MARKER_def)
  have c: "contains_str VIDEO_PATH_MARKER ?raw" by (simp add: VIDEO_PATH_MARKER_def)
  have s: "split_once VIDEO_PATH_MARKER ?raw = [''lerobot/'', ''front/videos/ep0.mp4'']"
    by (simp add: VIDEO_PATH_MARKER_def)
  from split_once_contains[OF ne c] s
  have first: "?raw = ''lerobot/'' @ VIDEO_PATH_MARKER @ ''front/videos/ep0.mp4''
      \<and> (\<forall>p t. ?raw = p @ VIDEO_PATH_MARKER @ t \<longrightarrow> length ''lerobot/'' \<le> length p)"
    by auto
  have "\<not> contains_str VIDEO_PATH_MARKER ''front/ep1.mp4''"
    by (simp add: VIDEO_PATH_MARKER_def)
  then have none: "\<nexists>p t. ''front/ep1.mp4'' = p @ VIDEO_PATH_MARKER @ t"
    unfolding contains_str_iff by blast
  have ev: "truediv (parse_path ''data/videos/incoming'') ''front/videos/ep0.mp4''
     = \<lparr>anchor = '''', parts = [''data'', ''videos'', ''incoming'', ''front'', ''videos'', ''ep0.mp4'']\<rparr>"
    by (simp add: truediv_def parse_path_def splitroot_def)
  from first none ev
    resolve_video_path_marker[of ?raw "''lerobot/''" "''front/videos/ep0.mp4''"
      "parse_path ''data/videos/incoming''"]
    resolve_video_path_marker[of "''front/ep1.mp4''" "[]" "[]"
      "parse_path ''data/videos/incoming''"]
  show ?thesis by blast
qed

text \<open>
  Claim C10. A raw path that is absolute and contains no \<open>videos/\<close> marker is returned as
  it is: the \<open>/\<close> of \<open>Path\<close> drops the video root when its right operand has a root.
\<close>

theorem resolve_video_path_absolute:
  "(\<nexists>p t. CHR ''/'' # rest = p @ VIDEO_PATH_MARKER @ t) \<Longrightarrow>
     resolve_video_path video_root (CHR ''/'' # rest) = parse_path (CHR ''/'' # rest)"
proof -
  assume "\<nexists>p t. CHR ''/'' # rest = p @ VIDEO_PATH_MARKER @ t"
  then have "\<not> contains_str VIDEO_PATH_MARKER (CHR ''/'' # rest)"
    unfolding contains_str_iff by blast
  then have r: "resolve_video_path video_root (CHR ''/'' # rest)
      = truediv video_root (CHR ''/'' # rest)"
    by (simp add: resolve_video_path_def)
  have "anchor (parse_path (CHR ''/'' # rest)) \<noteq> []"
    by (simp add: parse_path_def splitroot_def Let_def)
  then have "truediv video_root (CHR ''/'' # rest) = parse_path (CHR ''/'' # rest)"
    by (simp add: truediv_def Let_def)
  with r show ?thesis by simp
qed

theorem resolve_video_path_absolute_witness:
  "resolve_video_path (parse_path ''data/videos/incoming'') ''/mnt/raw/ep0.mp4''
     = parse_path ''/mnt/raw/ep0.mp4''
   \<and> parse_path ''/mnt/raw/ep0.mp4'' = \<lparr>anchor = ''/'', parts = [''mnt'', ''raw'', ''ep0.mp4'']\<rparr>"
proof -
  have "\<not> contains_str VIDEO_PATH_MARKER ''/mnt/raw/ep0.mp4''"
    by (simp add: VIDEO_PATH_MARKER_def)
  then have none: "\<nexists>p t. CHR ''/'' # ''mnt/raw/ep0.mp4'' = p @ VIDEO_PATH_MARKER @ t"
    unfolding contains_str_iff by simp
  have ev: "parse_path ''/mnt/raw/ep0.mp4'' = \<lparr>anchor = ''/'', parts = [''mnt'', ''raw'', ''ep0.mp4'']\<rparr>"
    by (simp add: parse_path_def splitroot_def)
  from resolve_video_path_absolute[OF none, of "parse_path ''data/videos/incoming''"] ev
  show ?thesis by simp
qed

section \<open>Properties of the episode order and of \<open>demo_id\<close>\<close>

lemma ebind_Inr_iff:
  "ebind m f = Inr y \<longleftrightarrow> (\<exists>x. m = Inr x \<and> f x = Inr y)"
  by (cases m) (simp_all add: ebind_def)

lemma ebind_Inr: "ebind (Inr x) f = f x"
  by (simp add: ebind_def)

lemma ebind_Inl: "ebind (Inl e) f = Inl e"
  by (simp add: ebind_def)

lemma isdecimal_isdigit: "isdecimal s \<Longrightarrow> isdigit s"
  by (induction s) (auto simp: isdecimal_def isdigit_def is_digit_char_def list_all_iff)

lemma py_int_Inr: "py_int s = Inr n \<Longrightarrow> isdecimal s \<and> n = int_of_decimal s"
  by (auto simp: py_int_def split: if_splits)

lemma py_sort_key_Inr:
  "py_sort_key rt k = Inr n \<Longrightarrow> n = sort_rule rt k \<and> (isdigit k \<longrightarrow> isdecimal k)"
  using isdecimal_isdigit[of k]
  by (auto simp: py_sort_key_def sort_rule_def dest: py_int_Inr split: if_splits)

lemma py_sort_key_ok:
  "(isdigit k \<longrightarrow> isdecimal k) \<Longrightarrow> py_sort_key rt k = Inr (sort_rule rt k)"
  using isdecimal_isdigit[of k]
  by (auto simp: py_sort_key_def sort_rule_def py_int_def)

lemma emap_Inr:
  "emap f xs = Inr ks \<Longrightarrow> list_all2 (\<lambda>x k. f x = Inr k) xs ks"
  by (induction xs arbitrary: ks) (auto simp: ebind_Inr_iff)


lemma emap_sort_key_ok:
  "\<forall>k\<in>set xs. isdigit k \<longrightarrow> isdecimal k \<Longrightarrow>
     emap (py_sort_key rt) xs = Inr (map (sort_rule rt) xs)"
  by (induction xs) (simp_all add: py_sort_key_ok ebind_Inr)

lemma insort_key_decorated:
  "insort_key fst (g x, x) (map (\<lambda>x. (g x, x)) ys) = map (\<lambda>x. (g x, x)) (insort_key g x ys)"
  by (induction ys) simp_all

lemma sort_key_decorated:
  "sort_key fst (map (\<lambda>x. (g x, x)) xs) = map (\<lambda>x. (g x, x)) (sort_key g xs)"
  by (induction xs) (simp_all add: insort_key_decorated)

lemma undecorate_sort:
  "map snd (sort_key fst (zip (map g xs) xs)) = sort_key g xs"
proof -
  have "zip (map g xs) xs = map (\<lambda>x. (g x, x)) xs"
    by (induction xs) simp_all
  then show ?thesis by (simp add: sort_key_decorated comp_def)
qed


lemma py_sorted_ok:
  "\<forall>k\<in>set xs. isdigit k \<longrightarrow> isdecimal k \<Longrightarrow>
     py_sorted (py_sort_key rt) xs = Inr (sort_key (sort_rule rt) xs)"
  by (simp add: py_sorted_def emap_sort_key_ok ebind_Inr undecorate_sort)

lemma episode_view_Inr:
  "episode_view rt video_root episodes k = Inr v \<Longrightarrow>
     episode_key v = k \<and> demo_id v = sort_rule rt k"
proof -
  assume "episode_view rt video_root episodes k = Inr v"
  then obtain demo where d: "(if isdigit k then py_int k else py_sort_key rt k) = Inr demo"
    and k: "episode_key v = k" and dv: "demo_id v = demo"
    by (auto simp: episode_view_def ebind_Inr_iff Let_def)
  have "demo = sort_rule rt k"
  proof (cases "isdigit k")
    case True
    with d have "py_int k = Inr demo" by simp
    from py_int_Inr[OF this] show ?thesis by (simp add: sort_rule_def)
  next
    case False
    with d have "py_sort_key rt k = Inr demo" by simp
    from py_sort_key_Inr[OF this] show ?thesis by simp
  qed
  with k dv show ?thesis by simp
qed

lemma yield_views_keys:
  "yield_views rt video_root episodes ks = (vs, r) \<Longrightarrow>
     prefix (map episode_key vs) ks
     \<and> (r = None \<longrightarrow> map episode_key vs = ks)
     \<and> (\<forall>v\<in>set vs. demo_id v = sort_rule rt (episode_key v))"
proof (induction ks arbitrary: vs r)
  case Nil
  then show ?case by simp
next
  case (Cons k ks)
  show ?case
  proof (cases "episode_view rt video_root episodes k")
    case (Inl e)
    with Cons.prems show ?thesis by auto
  next
    case (Inr v)
    obtain vs' r' where rest: "yield_views rt video_root episodes ks = (vs', r')"
      by (cases "yield_views rt video_root episodes ks")
    with Inr Cons.prems have vs: "vs = v # vs'" and r: "r = r'" by simp_all
    from Cons.IH[OF rest] episode_view_Inr[OF Inr] vs r show ?thesis by simp
  qed
qed


lemma int_of_decimal_nonneg:
  "list_all is_decimal_char s \<Longrightarrow> 0 \<le> a \<Longrightarrow> 0 \<le> foldl (\<lambda>a c. 10 * a + digit_value c) a s"
proof (induction s arbitrary: a)
  case Nil
  then show ?case by simp
next
  case (Cons c s)
  from Cons.prems have "is_decimal_char c" by simp
  then have "0 \<le> digit_value c"
    by (auto simp: is_decimal_char_def digit_value_def)
  with Cons.prems have "0 \<le> 10 * a + digit_value c" by simp
  with Cons show ?case by simp
qed

lemma sort_rule_nonneg: "0 \<le> sort_rule rt k"
  using int_of_decimal_nonneg[of k 0]
  by (simp add: sort_rule_def isdecimal_def int_of_decimal_def)

text \<open>
  The example of the specification: two episodes \<open>0\<close> and \<open>1\<close>, the second with a
  NaN in its pose array.
\<close>

lemma two_demo_end_to_end:
  "map demo_id (fst (iter_episode_views example_runtime two_demo_file example_root)) = [0, 1]
   \<and> snd (iter_episode_views example_runtime two_demo_file example_root) = None
   \<and> validate_episode_arrays good_episode = Inr []
   \<and> validate_episode_arrays nan_pose_episode = Inr [''eef_pose_non_finite'']"
  by code_simp

lemma three_demo_views:
  "map episode_key (fst (iter_episode_views example_runtime three_demo_file example_root))
     = [''2'', ''front'', ''10'']
   \<and> map demo_id (fst (iter_episode_views example_runtime three_demo_file example_root))
     = [2, 7, 10]
   \<and> snd (iter_episode_views example_runtime three_demo_file example_root) = None"
  by code_simp



text \<open>
  Claim C2. For every yielded view: when the key is a string of decimal digits, \<open>demo_id\<close>
  is the integer value of the key; otherwise \<open>demo_id\<close> is the absolute value of the hash
  of the key; and \<open>demo_id\<close> is never negative.
\<close>

theorem demo_id_rule:
  "iter_episode_views rt dataset video_root = (views, err) \<Longrightarrow> v \<in> set views \<Longrightarrow>
     (isdecimal (episode_key v) \<longrightarrow> demo_id v = int_of_decimal (episode_key v))
     \<and> (\<not> isdecimal (episode_key v) \<longrightarrow> demo_id v = abs (hash_str rt (episode_key v)))
     \<and> 0 \<le> demo_id v"
proof -
  assume it: "iter_episode_views rt dataset video_root = (views, err)" and v: "v \<in> set views"
  have "demo_id v = sort_rule rt (episode_key v)"
  proof (cases "get_episode_group dataset")
    case (Inl e)
    with it v show ?thesis by (simp add: iter_episode_views_def)
  next
    case (Inr episodes)
    show ?thesis
    proof (cases "py_sorted (py_sort_key rt) (map fst episodes)")
      case (Inl e)
      with it v Inr show ?thesis by (simp add: iter_episode_views_def)
    next
      case ks: (Inr ks)
      with it Inr have "yield_views rt video_root episodes ks = (views, err)"
        by (simp add: iter_episode_views_def)
      from yield_views_keys[OF this] v show ?thesis by blast
    qed
  qed
  then show ?thesis using sort_rule_nonneg[of rt "episode_key v"]
    by (simp add: sort_rule_def)
qed

theorem demo_id_rule_witness:
  "episode_key (fst (iter_episode_views example_runtime three_demo_file example_root) ! 1) = ''front''
   \<and> demo_id (fst (iter_episode_views example_runtime three_demo_file example_root) ! 1)
       = abs (hash_str example_runtime ''front'')
   \<and> episode_key (fst (iter_episode_views example_runtime three_demo_file example_root) ! 2) = ''10''
   \<and> demo_id (fst (iter_episode_views example_runtime three_demo_file example_root) ! 2)
       = int_of_decimal ''10''
   \<and> 0 \<le> demo_id (fst (iter_episode_views example_runtime three_demo_file example_root) ! 1)"
proof -
  let ?it = "iter_episode_views example_runtime three_demo_file example_root"
  have it: "?it = (fst ?it, snd ?it)" by simp
  have keys: "map episode_key (fst ?it) = [''2'', ''front'', ''10'']"
    using three_demo_views by simp
  then have "length (map episode_key (fst ?it)) = 3" by simp
  then have len: "length (fst ?it) = 3" by simp
  have k1: "episode_key (fst ?it ! 1) = ''front''"
    using nth_map[of 1 "fst ?it" episode_key] len keys by simp
  have k2: "episode_key (fst ?it ! 2) = ''10''"
    using nth_map[of 2 "fst ?it" episode_key] len keys by simp
  from len have m1: "fst ?it ! 1 \<in> set (fst ?it)" and m2: "fst ?it ! 2 \<in> set (fst ?it)"
    by simp_all
  have d1: "\<not> isdecimal ''front''" by (simp add: isdecimal_def is_decimal_char_def)
  have d2: "isdecimal ''10''" by (simp add: isdecimal_def is_decimal_char_def)
  from demo_id_rule[OF it m1] demo_id_rule[OF it m2] k1 k2 d1 d2
  show ?thesis by simp
qed

text \<open>
  Claim C9. Neither the sort key nor \<open>demo_id\<close> is injective on keys: \<open>7\<close> and \<open>007\<close>
  are different keys with the same sort key and the same \<open>demo_id\<close>, the sort leaves them in
  whichever order they were enumerated, and the file names made from their \<open>demo_id\<close>
  are the same.
\<close>

theorem numeric_keys_collide:
  "''7'' \<noteq> ''007''
   \<and> py_sort_key rt ''7'' = Inr 7 \<and> py_sort_key rt ''007'' = Inr 7
   \<and> py_sorted (py_sort_key rt) [''7'', ''007''] = Inr [''7'', ''007'']
   \<and> py_sorted (py_sort_key rt) [''007'', ''7''] = Inr [''007'', ''7'']
   \<and> map (\<lambda>v. (episode_key v, demo_id v, expected_export_name v))
        (fst (iter_episode_views example_runtime collision_file example_root))
      = [(''007'', 7, ''demo_0007_front.mp4''), (''7'', 7, ''demo_0007_front.mp4'')]"
proof -
  have d7: "isdecimal ''7''" and d007: "isdecimal ''007''"
    by (simp_all add: isdecimal_def is_decimal_char_def)
  have r7: "sort_rule rt ''7'' = 7" and r007: "sort_rule rt ''007'' = 7"
    using d7 d007 by (simp_all add: sort_rule_def int_of_decimal_def digit_value_def)
  have k7: "py_sort_key rt ''7'' = Inr 7"
    using py_sort_key_ok[of "''7''" rt] d7 r7 by simp
  have k007: "py_sort_key rt ''007'' = Inr 7"
    using py_sort_key_ok[of "''007''" rt] d007 r007 by simp
  have s1: "py_sorted (py_sort_key rt) [''7'', ''007''] = Inr [''7'', ''007'']"
    using py_sorted_ok[of "[''7'', ''007'']" rt] d7 d007 r7 r007 by simp
  have s2: "py_sorted (py_sort_key rt) [''007'', ''7''] = Inr [''007'', ''7'']"
    using py_sorted_ok[of "[''007'', ''7'']" rt] d7 d007 r7 r007 by simp
  have ev: "map (\<lambda>v. (episode_key v, demo_id v, expected_export_name v))
        (fst (iter_episode_views example_runtime collision_file example_root))
      = [(''007'', 7, ''demo_0007_front.mp4''), (''7'', 7, ''demo_0007_front.mp4'')]"
    by code_simp
  from k7 k007 s1 s2 ev show ?thesis by simp
qed

theorem numeric_keys_collide_witness:
  "py_sort_key example_runtime ''7'' = py_sort_key example_runtime ''007''
   \<and> py_sorted (py_sort_key example_runtime) [''7'', ''007''] = Inr [''7'', ''007'']
   \<and> py_sorted (py_sort_key example_runtime) [''007'', ''7''] = Inr [''007'', ''7'']"
  using numeric_keys_collide[of example_runtime] by simp

section \<open>Properties of the array validator\<close>












lemma tag_if_simps:
  "tag_if True t = [t]" "tag_if False t = []"
  by (simp_all add: tag_if_def)

















section \<open>Properties of \<open>decode_scalar_string\<close>\<close>

text \<open>
  Claim C8, as stated, fails: an array of characters with one axis is not a
  zero-dimensional array, so it is returned as \<open>str(raw)\<close>, which is the text numpy
  prints for the array, \<open>[b'o' b'k']\<close>, and not its content \<open>ok\<close>.
\<close>

theorem decode_scalar_string_counterexample:
  "decode_scalar_string example_runtime char_array = Inr char_array_text
   \<and> char_array_text \<noteq> ''ok''"
  by (simp add: char_array_def char_array_text_def py_str_def example_runtime_def)

text \<open>
  Claim C8, amended. \<open>decode_scalar_string\<close> returns the UTF-8 decoding of \<open>bytes\<close>
  (or the decoder's exception), unwraps a zero-dimensional array and decodes its element
  in the same way, returns a \<open>str\<close> as it is, and returns \<open>str(raw)\<close> for an array
  that has an axis: the printed representation of the container.
\<close>

theorem decode_scalar_string_cases:
  "decode_scalar_string rt (Bytes b) = utf8_decode rt b
   \<and> decode_scalar_string rt (Arr (Nd0 x)) = decode_scalar_string rt x
   \<and> decode_scalar_string rt (Arr (Nd0 (Bytes b))) = utf8_decode rt b
   \<and> decode_scalar_string rt (Text s) = Inr s
   \<and> decode_scalar_string rt (Arr (NdN n rest es)) = Inr (str_of rt (Arr (NdN n rest es)))"
  by (simp add: py_str_def)

theorem decode_scalar_string_cases_witness:
  "decode_scalar_string example_runtime (Bytes ''pick up the cube'') = Inr ''pick up the cube''
   \<and> decode_scalar_string example_runtime (Arr (Nd0 (Bytes ''pick up the cube'')))
       = Inr ''pick up the cube''
   \<and> decode_scalar_string example_runtime (Bytes [CHR 0xC3, CHR 0xA9]) = Inr [CHR 0xE9]
   \<and> decode_scalar_string example_runtime (Bytes [CHR 0xFF]) = Inl UnicodeDecodeError
   \<and> decode_scalar_string example_runtime (Arr (NdN 2 [] [Bytes ''o'', Bytes ''k'']))
       = Inr char_array_text"
proof -
  have u1: "utf8_decode example_runtime ''pick up the cube'' = Inr ''pick up the cube''"
    by (simp add: example_runtime_def ebind_def)
  have u2: "utf8_decode example_runtime [CHR 0xC3, CHR 0xA9] = Inr [CHR 0xE9]"
    by code_simp
  have u3: "utf8_decode example_runtime [CHR 0xFF] = Inl UnicodeDecodeError"
    by (simp add: example_runtime_def ebind_def)
  note u = u1 u2 u3
  have s: "str_of example_runtime (Arr (NdN 2 [] [Bytes ''o'', Bytes ''k''])) = char_array_text"
    by (simp add: example_runtime_def char_array_text_def)
  from decode_scalar_string_cases[of example_runtime "''pick up the cube''"]
    decode_scalar_string_cases[of example_runtime "[CHR 0xC3, CHR 0xA9]"]
    decode_scalar_string_cases[of example_runtime "[CHR 0xFF]"]
    decode_scalar_string_cases[of example_runtime _ _ _ 2 "[]" "[Bytes ''o'', Bytes ''k'']"]
    u s
  show ?thesis by simp
qed

section \<open>Properties of \<open>assert_required_structure\<close>\<close>

lemma assert_no_episodes_group:
  "episodes_member dataset = None \<Longrightarrow>
     assert_required_structure rt dataset = Inl (ValueError Unsupported_schema)"
  by (simp add: assert_required_structure_def get_episode_group_def ebind_def)

lemma assert_zero_episodes:
  "episodes_member dataset = Some [] \<Longrightarrow>
     assert_required_structure rt dataset = Inl (ValueError Zero_episodes)"
  by (simp add: assert_required_structure_def get_episode_group_def ebind_def)

text \<open>
  On a file with at least one episode and keys that can all be sorted, the check looks at
  the first episode in sorted order only and reports every required path it lacks.
\<close>

lemma assert_first_episode:
  assumes "episodes_member dataset = Some episodes" and "episodes \<noteq> []"
    and "\<forall>k\<in>set (map fst episodes). isdigit k \<longrightarrow> isdecimal k"
  shows "\<exists>first_key first_episode others.
      sort_key (sort_rule rt) (map fst episodes) = first_key # others
      \<and> map_of episodes first_key = Some first_episode
      \<and> assert_required_structure rt dataset =
          (if filter (\<lambda>p. \<not> path_in first_episode p) required_episode_paths = []
           then Inr ()
           else Inl (ValueError (Missing_required_paths first_key
                  (filter (\<lambda>p. \<not> path_in first_episode p) required_episode_paths))))"
proof -
  let ?keys = "map fst episodes"
  let ?sorted = "sort_key (sort_rule rt) ?keys"
  from assms(2) have "length ?sorted \<noteq> 0" by simp
  then obtain first_key others where s: "?sorted = first_key # others"
    by (cases ?sorted) simp_all
  then have "first_key \<in> set ?sorted" by simp
  then have "first_key \<in> set ?keys" by simp
  then have "map_of episodes first_key \<noteq> None" by (simp add: map_of_eq_None_iff)
  then obtain first_episode where m: "map_of episodes first_key = Some first_episode"
    by blast
  have srt: "py_sorted (py_sort_key rt) ?keys = Inr ?sorted"
    by (rule py_sorted_ok[OF assms(3)])
  from assms(1) have g: "get_episode_group dataset = Inr episodes"
    by (simp add: get_episode_group_def)
  have "assert_required_structure rt dataset =
          (if filter (\<lambda>p. \<not> path_in first_episode p) required_episode_paths = []
           then Inr ()
           else Inl (ValueError (Missing_required_paths first_key
                  (filter (\<lambda>p. \<not> path_in first_episode p) required_episode_paths))))"
    using assms(2)
    by (simp add: assert_required_structure_def g srt s m episode_of_def ebind_def Let_def)
  with s m show ?thesis by blast
qed

text \<open>
  Claim C4 does not hold of the code on every file. The file \<open>superscript_key_file\<close> has
  an \<open>episodes\<close> group with one episode, and that episode has all ten required paths, so
  the claim has the check return normally. Its key, the superscript digit U+00B2, is
  accepted by \<open>isdigit\<close> but is not a decimal digit, so \<open>int\<close> raises inside the key
  function of \<open>sorted\<close> and the check ends with that \<open>ValueError\<close>.
\<close>

theorem assert_required_structure_superscript_key:
  "assert_required_structure rt superscript_key_file
     = Inl (ValueError (Invalid_int_literal [CHR 0xB2]))
   \<and> filter (\<lambda>p. \<not> path_in good_episode p) required_episode_paths = []
   \<and> isdigit [CHR 0xB2] \<and> \<not> isdecimal [CHR 0xB2]"
proof -
  have d: "isdigit [CHR 0xB2]" "\<not> isdecimal [CHR 0xB2]"
    by (simp_all add: isdigit_def isdecimal_def is_digit_char_def is_decimal_char_def)
  then have k: "py_sort_key rt [CHR 0xB2] = Inl (ValueError (Invalid_int_literal [CHR 0xB2]))"
    by (simp add: py_sort_key_def py_int_def)
  have a: "assert_required_structure rt superscript_key_file
     = Inl (ValueError (Invalid_int_literal [CHR 0xB2]))"
    by (simp add: assert_required_structure_def superscript_key_file_def
        get_episode_group_def py_sorted_def k ebind_def)
  have p: "filter (\<lambda>p. \<not> path_in good_episode p) required_episode_paths = []"
    by code_simp
  from a p d show ?thesis by simp
qed

end
